theory Spec2Isabelle
  imports Main "HOL-Library.Word"
begin

section \<open>The sACN receiver: sequence numbers\<close>

type_synonym byte = "8 word"

text \<open>
  \<^verbatim>\<open>func checkSequ(old, new byte) bool\<close> widens both bytes to \<^verbatim>\<open>int\<close> before
  subtracting, so the difference lies between -255 and 255 and never wraps.
\<close>

definition checkSequ :: "byte \<Rightarrow> byte \<Rightarrow> bool" where
  "checkSequ old new =
     (let tmp = uint new - uint old
      in if tmp \<le> 0 \<and> tmp > -20 then False else True)"

section \<open>Time\<close>

text \<open>
  A \<^verbatim>\<open>time.Time\<close> is an instant on one clock, counted in nanoseconds. A call
  reads the clock through \<^verbatim>\<open>time.Now()\<close> and \<^verbatim>\<open>time.Since\<close>; one call of
  \<^verbatim>\<open>handle\<close> is taken to happen at one instant \<open>now\<close>, which every reading of the
  clock inside it returns. \<^verbatim>\<open>time.Since(t)\<close> is \<^verbatim>\<open>time.Now().Sub(t)\<close>, a
  \<^verbatim>\<open>Duration\<close> (a 64-bit count of nanoseconds) which \<^verbatim>\<open>Sub\<close> saturates at the
  least and the greatest \<^verbatim>\<open>Duration\<close>.
\<close>

type_synonym time = int

definition minDuration :: int where
  "minDuration = - (2 ^ 63)"

definition maxDuration :: int where
  "maxDuration = 2 ^ 63 - 1"

definition since :: "time \<Rightarrow> time \<Rightarrow> int" where
  "since now t =
     (let d = now - t
      in if d < minDuration then minDuration
         else if d > maxDuration then maxDuration
         else d)"

definition Millisecond :: int where
  "Millisecond = 1000000"

text \<open>
  Modelled from the spec: the constant \<^verbatim>\<open>timeoutMs\<close> is declared outside the source
  file at hand; the spec gives it: ``Constant timeout = 2500 ms''.
\<close>

definition timeoutMs :: int where
  "timeoutMs = 2500"

section \<open>Sources of a universe\<close>

text \<open>A CID is a \<^verbatim>\<open>[16]byte\<close> array, which the code only compares for equality.\<close>

type_synonym cid = "128 word"

record source =
  lastTime :: time
  lastTimeHighPrio :: time
  highestPrio :: byte

text \<open>
  Modelled from the spec: the type \<^verbatim>\<open>DataPacket\<close> and its accessors are declared
  outside the source file at hand; the spec lists them as read-only accessors
  \<^verbatim>\<open>Universe() -> uint16\<close>, \<^verbatim>\<open>CID() -> 16-byte identifier\<close>,
  \<^verbatim>\<open>Priority() -> uint8\<close>, \<^verbatim>\<open>Sequence() -> uint8\<close> and
  \<^verbatim>\<open>Data() -> byte sequence\<close>.
\<close>

record DataPacket =
  Universe :: "16 word"
  CID :: cid
  Priority :: byte
  Sequence :: byte
  Data :: "byte list"

text \<open>
  A \<^verbatim>\<open>map[[16]byte]source\<close> is a list of entries with pairwise different keys. Go
  visits the entries of a map in no fixed order; the order of the list stands for the
  order of one visit.
\<close>

type_synonym sourcesMap = "(cid \<times> source) list"

text \<open>Go's \<^verbatim>\<open>delete(m, key)\<close>.\<close>

definition delete :: "cid \<Rightarrow> sourcesMap \<Rightarrow> sourcesMap" where
  "delete key m = filter (\<lambda>e. fst e \<noteq> key) m"

text \<open>
  The loop \<^verbatim>\<open>for key, value := range m\<close> of \<^verbatim>\<open>updateSourcesMap\<close>: the second
  argument holds the entries still to visit, the third the map itself. In Go,
  \<^verbatim>\<open>value\<close> is a copy of the entry: the branch for the packet's own CID assigns to
  that copy and nothing stores it back into \<^verbatim>\<open>m\<close>. The other branch deletes from
  \<^verbatim>\<open>m\<close> the key being visited, never one that is still to come.
\<close>

fun updateLoop :: "time \<Rightarrow> DataPacket \<Rightarrow> (cid \<times> source) list \<Rightarrow> sourcesMap \<Rightarrow> sourcesMap"
  where
  "updateLoop now p [] m = m"
| "updateLoop now p ((key, value) # es) m =
     (if key = CID p then
        (let value = value\<lparr>lastTime := now\<rparr>;
             value =
               (if highestPrio value < Priority p then
                  value\<lparr>highestPrio := Priority p, lastTimeHighPrio := now\<rparr>
                else if highestPrio value = Priority p then
                  value\<lparr>lastTimeHighPrio := now\<rparr>
                else if highestPrio value > Priority p then
                  (if since now (lastTimeHighPrio value) > timeoutMs * Millisecond then
                     value\<lparr>highestPrio := Priority p, lastTimeHighPrio := now\<rparr>
                   else value)
                else value)
         in updateLoop now p es m)
      else if since now (lastTime value) > timeoutMs * Millisecond then
        updateLoop now p es (delete key m)
      else updateLoop now p es m)"

definition updateSourcesMap :: "time \<Rightarrow> DataPacket \<Rightarrow> sourcesMap \<Rightarrow> sourcesMap" where
  "updateSourcesMap now p m =
     (let m = updateLoop now p m m
      in case map_of m (CID p) of
           Some _ \<Rightarrow> m
         | None \<Rightarrow>
             m @ [(CID p,
                   \<lparr>lastTime = now, lastTimeHighPrio = now, highestPrio = Priority p\<rparr>)])"

text \<open>The two loops of \<^verbatim>\<open>getAllowedSources\<close>; the result is a Go map used as a set.\<close>

fun highestLoop :: "(cid \<times> source) list \<Rightarrow> byte \<Rightarrow> byte" where
  "highestLoop [] highest = highest"
| "highestLoop ((key, value) # es) highest =
     (if highestPrio value > highest then highestLoop es (highestPrio value)
      else highestLoop es highest)"

fun collectLoop :: "(cid \<times> source) list \<Rightarrow> byte \<Rightarrow> cid set \<Rightarrow> cid set" where
  "collectLoop [] highest new = new"
| "collectLoop ((key, value) # es) highest new =
     (if highestPrio value = highest then collectLoop es highest (insert key new)
      else collectLoop es highest new)"

definition getAllowedSources :: "sourcesMap \<Rightarrow> cid set" where
  "getAllowedSources m =
     (let highest = highestLoop m 0
      in collectLoop m highest {})"

section \<open>The receiver and the handling step\<close>

text \<open>
  Modelled from the spec: the types \<^verbatim>\<open>lastData\<close>, \<^verbatim>\<open>ReceiverSocket\<close> and
  \<^verbatim>\<open>ReceiveError\<close> and the helpers \<^verbatim>\<open>isActive\<close>, \<^verbatim>\<open>equalData\<close> and
  \<^verbatim>\<open>errToCh\<close> are declared outside the source file at hand. The fields are those
  \<^verbatim>\<open>handle\<close> and \<^verbatim>\<open>NewReceiverSocket\<close> use. The spec gives the helpers:
  \<^verbatim>\<open>IsActive(universe) -> bool\<close> reads the registry of active universes, payloads
  are compared ``byte-for-byte'', and an error is emitted to the error sink as a pair of
  the universe and the kind of error. Each channel is the sequence of what was sent on
  it; the sources map of a \<^verbatim>\<open>lastData\<close> is taken to be allocated.
\<close>

record lastData =
  sources :: sourcesMap
  lastTime_ld :: time
  lastDMXdata :: "byte list"
  lastSequ :: byte

type_synonym ReceiveError = "16 word \<times> string"

record ReceiverSocket =
  activated :: "16 word set"
  lastDatas :: "16 word \<rightharpoonup> lastData"
  DataChan :: "DataPacket list"
  ErrChan :: "ReceiveError list"

definition isActive :: "ReceiverSocket \<Rightarrow> 16 word \<Rightarrow> bool" where
  "isActive r universe = (universe \<in> activated r)"

definition equalData :: "byte list \<Rightarrow> byte list \<Rightarrow> bool" where
  "equalData a b = (a = b)"

definition errToCh :: "16 word \<Rightarrow> string \<Rightarrow> ReceiverSocket \<Rightarrow> ReceiverSocket" where
  "errToCh universe err r = r\<lparr>ErrChan := ErrChan r @ [(universe, err)]\<rparr>"

text \<open>
  \<^verbatim>\<open>lastDatas\<close> maps a universe to a pointer; reading a field through the nil
  pointer that a missing key yields panics.
\<close>

datatype panic = NilDereference

text \<open>
  The \<^verbatim>\<open>else if\<close> branch of \<^verbatim>\<open>handle\<close>, taken when the packet is nil, is for
  another universe, or the universe is not active.
\<close>

definition handleElse :: "time \<Rightarrow> 16 word \<Rightarrow> ReceiverSocket \<Rightarrow> panic + ReceiverSocket" where
  "handleElse now universe r =
     (case lastDatas r universe of
        None \<Rightarrow> Inl NilDereference
      | Some ld \<Rightarrow>
          if since now (lastTime_ld ld) > timeoutMs * Millisecond then
            Inr (errToCh universe ''timeout'' r)
          else Inr r)"

text \<open>
  \<^verbatim>\<open>handle\<close>. The sources map is shared with the \<^verbatim>\<open>lastData\<close> it belongs to, so
  what \<^verbatim>\<open>updateSourcesMap\<close> does to \<^verbatim>\<open>m\<close> is stored in the universe's state on
  every path that follows.
\<close>

definition handle ::
  "time \<Rightarrow> 16 word \<Rightarrow> DataPacket option \<Rightarrow> ReceiverSocket \<Rightarrow> panic + ReceiverSocket" where
  "handle now universe p r =
     (case p of
        None \<Rightarrow> handleElse now universe r
      | Some pkt \<Rightarrow>
          if universe = Universe pkt \<and> isActive r universe then
            (case lastDatas r universe of
               None \<Rightarrow> Inl NilDereference
             | Some ld0 \<Rightarrow>
                 let m = updateSourcesMap now pkt (sources ld0);
                     ld = ld0\<lparr>sources := m\<rparr>;
                     r = r\<lparr>lastDatas := (lastDatas r)(universe \<mapsto> ld)\<rparr>;
                     tmp = getAllowedSources m
                 in if card tmp > 1 then
                      Inr (errToCh universe ''sources exceeded'' r)
                    else if CID pkt \<in> tmp then
                      (if \<not> checkSequ (lastSequ ld) (Sequence pkt) then Inr r
                       else
                         let ld = ld\<lparr>lastSequ := Sequence pkt, lastTime_ld := now\<rparr>
                         in if \<not> equalData (lastDMXdata ld) (Data pkt) then
                              Inr (r\<lparr>DataChan := DataChan r @ [pkt],
                                     lastDatas := (lastDatas r)
                                       (universe \<mapsto> ld\<lparr>lastDMXdata := [] @ Data pkt\<rparr>)\<rparr>)
                            else Inr (r\<lparr>lastDatas := (lastDatas r)(universe \<mapsto> ld)\<rparr>))
                    else Inr r)
          else handleElse now universe r)"

section \<open>Example inputs\<close>

definition ex_src :: "time \<Rightarrow> byte \<Rightarrow> source" where
  "ex_src t prio = \<lparr>lastTime = t, lastTimeHighPrio = t, highestPrio = prio\<rparr>"

definition ex_pkt :: "cid \<Rightarrow> byte \<Rightarrow> byte \<Rightarrow> byte list \<Rightarrow> DataPacket" where
  "ex_pkt c prio sq d = \<lparr>Universe = 1, CID = c, Priority = prio, Sequence = sq, Data = d\<rparr>"

definition ex_ld :: "sourcesMap \<Rightarrow> lastData" where
  "ex_ld m = \<lparr>sources = m, lastTime_ld = 0, lastDMXdata = [1, 2, 3], lastSequ = 2\<rparr>"

definition ex_socket :: "sourcesMap \<Rightarrow> ReceiverSocket" where
  "ex_socket m =
     \<lparr>activated = {1}, lastDatas = [1 \<mapsto> ex_ld m], DataChan = [], ErrChan = []\<rparr>"

definition ex_sources_stale :: sourcesMap where
  "ex_sources_stale = [(1, ex_src 0 100), (2, ex_src 1000000000 100), (7, ex_src 0 100)]"

definition ex_sources_tie :: sourcesMap where
  "ex_sources_tie = [(7, ex_src 0 100), (8, ex_src 0 100), (9, ex_src 0 50)]"

section \<open>Facts about bytes\<close>

lemma uint_byte_range: "0 \<le> uint (w::byte) \<and> uint w < 256"
  using uint_lt2p [of w] by simp

lemma uint_byte_sub:
  "uint ((a::byte) - b) =
     (if uint b \<le> uint a then uint a - uint b else uint a - uint b + 256)"
  by (simp add: uint_sub_if')

lemma uint_byte_add:
  "uint ((a::byte) + b) =
     (if uint a + uint b < 256 then uint a + uint b else uint a + uint b - 256)"
  by (simp add: uint_plus_if')

lemma uint_byte_m1: "uint (- 1 :: byte) = 255"
  by (simp add: unsigned_minus_1_eq_mask mask_eq_exp_minus_1)

lemma byte_nonzero_ge1: "(w::byte) \<noteq> 0 \<Longrightarrow> 1 \<le> uint w"
proof -
  assume "w \<noteq> 0"
  then have "uint w \<noteq> 0" by (simp add: word_uint_eq_iff)
  moreover have "0 \<le> uint w" by (rule uint_ge_0)
  ultimately show "1 \<le> uint w" by linarith
qed

section \<open>The sequence validator\<close>

text \<open>
  C9: for every 8-bit \<open>old\<close>, \<open>checkSequ old (old + 1)\<close> is true, the successor taken
  modulo 256 (so \<open>checkSequ 255 0\<close> is true), and \<open>checkSequ old old\<close> is false.
\<close>

theorem checkSequ_successor_and_same:
  "checkSequ old (old + 1) \<and> checkSequ 255 0 \<and> \<not> checkSequ old old"
  using uint_byte_range [of old]
  by (simp add: checkSequ_def uint_byte_add)

text \<open>
  C2, as claimed: for every 8-bit \<open>old\<close>, the predecessors \<open>old - 1\<close> and \<open>old - 19\<close>
  (modulo 256) are rejected and \<open>old - 20\<close> is accepted. The difference is taken in
  \<^verbatim>\<open>int\<close>, so at \<open>old = 0\<close> the wrapped predecessor 255 gives \<open>tmp = 255\<close>, which
  is accepted.
\<close>

theorem checkSequ_wrapped_predecessor_accepted:
  "checkSequ 0 (0 - 1)"
  by (simp add: checkSequ_def uint_byte_m1)

text \<open>
  C2, amended: \<open>checkSequ old (old - 1)\<close> is false exactly when \<open>old \<ge> 1\<close>,
  \<open>checkSequ old (old - 19)\<close> is false exactly when \<open>old \<ge> 19\<close>, and
  \<open>checkSequ old (old - 20)\<close> is true for every \<open>old\<close>.
\<close>

theorem checkSequ_predecessors:
  "checkSequ old (old - 1) = (old = 0) \<and>
   checkSequ old (old - 19) = (old < 19) \<and>
   checkSequ old (old - 20)"
proof -
  have p1: "checkSequ old (old - 1) = (old = 0)"
  proof (cases "old = 0")
    case True
    then show ?thesis by (simp add: checkSequ_def uint_byte_m1)
  next
    case False
    with byte_nonzero_ge1 [of old] show ?thesis
      by (simp add: checkSequ_def uint_byte_sub)
  qed
  have p19: "checkSequ old (old - 19) = (old < 19)"
    using uint_byte_range [of old]
    by (auto simp add: checkSequ_def uint_byte_sub word_less_def)
  have p20: "checkSequ old (old - 20)"
    using uint_byte_range [of old]
    by (auto simp add: checkSequ_def uint_byte_sub)
  from p1 p19 p20 show ?thesis by simp
qed

section \<open>Facts about time\<close>

lemma since_gt_timeout:
  "(since now t > timeoutMs * Millisecond) = (now - t > timeoutMs * Millisecond)"
  by (simp add: since_def timeoutMs_def Millisecond_def minDuration_def maxDuration_def Let_def)

lemma timeout_ns: "timeoutMs * Millisecond = 2500000000"
  by (simp add: timeoutMs_def Millisecond_def)

section \<open>The loop of updateSourcesMap\<close>

lemma map_of_filter_fst:
  "map_of (filter (\<lambda>e. Q (fst e)) m) k = (if Q k then map_of m k else None)"
  by (induction m) auto

lemma updateLoop_filter:
  "updateLoop now p es m =
     filter (\<lambda>e. \<not> (\<exists>v. (fst e, v) \<in> set es \<and> fst e \<noteq> CID p \<and>
                     since now (lastTime v) > timeoutMs * Millisecond)) m"
proof (induction now p es m rule: updateLoop.induct)
  case (1 now p m)
  then show ?case by simp
next
  case (2 now p key "value" es m)
  show ?case
  proof (cases "key = CID p")
    case True
    with 2 show ?thesis by (auto simp: Let_def intro!: filter_cong)
  next
    case False
    show ?thesis
    proof (cases "since now (lastTime value) > timeoutMs * Millisecond")
      case True
      with False 2 show ?thesis by (auto simp: delete_def intro!: filter_cong)
    next
      case stay: False
      with False 2 show ?thesis by (auto intro!: filter_cong)
    qed
  qed
qed

lemma updateLoop_lookup:
  "map_of (updateLoop now p es m) k =
     (if \<exists>v. (k, v) \<in> set es \<and> k \<noteq> CID p \<and> since now (lastTime v) > timeoutMs * Millisecond
      then None else map_of m k)"
proof -
  let ?Q = "\<lambda>k. \<not> (\<exists>v. (k, v) \<in> set es \<and> k \<noteq> CID p \<and>
                     since now (lastTime v) > timeoutMs * Millisecond)"
  have loop: "updateLoop now p es m = filter (\<lambda>e. ?Q (fst e)) m"
    by (rule updateLoop_filter)
  have "map_of (filter (\<lambda>e. ?Q (fst e)) m) k = (if ?Q k then map_of m k else None)"
    by (rule map_of_filter_fst [of ?Q m k])
  with loop have "map_of (updateLoop now p es m) k = (if ?Q k then map_of m k else None)"
    by (simp only:)
  then show ?thesis by (simp only: if_not_P if_P split: if_split) blast
qed

lemma updateLoop_own: "map_of (updateLoop now p es m) (CID p) = map_of m (CID p)"
  by (simp add: updateLoop_lookup)

lemma updateSourcesMap_own_kept:
  "map_of m (CID p) = Some v \<Longrightarrow> map_of (updateSourcesMap now p m) (CID p) = Some v"
  by (simp add: updateSourcesMap_def Let_def updateLoop_own)

lemma updateSourcesMap_own_new:
  "map_of m (CID p) = None \<Longrightarrow>
   map_of (updateSourcesMap now p m) (CID p) =
     Some \<lparr>lastTime = now, lastTimeHighPrio = now, highestPrio = Priority p\<rparr>"
  by (simp add: updateSourcesMap_def Let_def updateLoop_own map_add_def)

lemma updateSourcesMap_other:
  assumes "k \<noteq> CID p"
  shows "map_of (updateSourcesMap now p m) k =
     (if \<exists>v. (k, v) \<in> set m \<and> since now (lastTime v) > timeoutMs * Millisecond
      then None else map_of m k)"
  using assms
  by (auto simp add: updateSourcesMap_def Let_def updateLoop_lookup map_add_def split: option.splits)

lemma updateLoop_cong:
  "CID p = CID q \<Longrightarrow> Priority p = Priority q \<Longrightarrow> updateLoop now p es m = updateLoop now q es m"
  by (simp add: updateLoop_filter)

lemma updateSourcesMap_cong:
  "CID p = CID q \<Longrightarrow> Priority p = Priority q \<Longrightarrow> updateSourcesMap now p m = updateSourcesMap now q m"
  by (simp add: updateSourcesMap_def Let_def updateLoop_cong [of p q] split: option.splits)

lemma updateSourcesMap_distinct:
  "distinct (map fst m) \<Longrightarrow> distinct (map fst (updateSourcesMap now p m))"
proof -
  assume d: "distinct (map fst m)"
  let ?m = "updateLoop now p m m"
  have d': "distinct (map fst ?m)"
    using d by (simp add: updateLoop_filter distinct_map_filter)
  show ?thesis
  proof (cases "map_of ?m (CID p)")
    case None
    then have "CID p \<notin> fst ` set ?m" by (simp add: map_of_eq_None_iff)
    with d' None show ?thesis by (simp add: updateSourcesMap_def Let_def)
  next
    case (Some v)
    with d' show ?thesis by (simp add: updateSourcesMap_def Let_def)
  qed
qed

lemma updateSourcesMap_other_not_stale:
  assumes "map_of (updateSourcesMap now p m) k = Some v" and "k \<noteq> CID p"
  shows "\<not> (now - lastTime v > timeoutMs * Millisecond)"
proof -
  let ?E = "\<exists>w. (k, w) \<in> set m \<and> since now (lastTime w) > timeoutMs * Millisecond"
  have eq: "map_of (updateSourcesMap now p m) k = (if ?E then None else map_of m k)"
    using assms(2) by (rule updateSourcesMap_other)
  have none: "\<not> ?E"
  proof
    assume ?E
    with eq have "map_of (updateSourcesMap now p m) k = None" by (simp only: if_True)
    with assms(1) show False by simp
  qed
  with eq have "map_of (updateSourcesMap now p m) k = map_of m k" by (simp only: if_False)
  with assms(1) have "map_of m k = Some v" by simp
  then have "(k, v) \<in> set m" by (rule map_of_SomeD)
  with none have "\<not> since now (lastTime v) > timeoutMs * Millisecond" by blast
  then show ?thesis by (simp add: since_gt_timeout)
qed

lemma updateSourcesMap_other_kept:
  assumes d: "distinct (map fst m)" and look: "map_of m k = Some v" and other: "k \<noteq> CID p"
    and fresh: "\<not> (now - lastTime v > timeoutMs * Millisecond)"
  shows "map_of (updateSourcesMap now p m) k = Some v"
proof -
  let ?E = "\<exists>w. (k, w) \<in> set m \<and> since now (lastTime w) > timeoutMs * Millisecond"
  have eq: "map_of (updateSourcesMap now p m) k = (if ?E then None else map_of m k)"
    using other by (rule updateSourcesMap_other)
  have "\<not> ?E"
  proof
    assume ?E
    then obtain w where w: "(k, w) \<in> set m" "since now (lastTime w) > timeoutMs * Millisecond"
      by blast
    from d w(1) have "map_of m k = Some w" by (rule map_of_is_SomeI)
    with look have "w = v" by simp
    with w(2) fresh show False by (simp add: since_gt_timeout)
  qed
  with eq have "map_of (updateSourcesMap now p m) k = map_of m k" by (simp only: if_False)
  with look show ?thesis by simp
qed

section \<open>The loops of getAllowedSources\<close>

lemma highestLoop_Max:
  "highestLoop es h = Max (insert h (highestPrio ` snd ` set es))"
proof (induction es arbitrary: h)
  case Nil
  then show ?case by simp
next
  case (Cons e es)
  obtain key "value" where e: "e = (key, value)" by (cases e)
  let ?S = "highestPrio ` snd ` set es"
  have fin: "finite ?S" by simp
  have step: "Max (insert h (insert (highestPrio value) ?S)) =
      Max (insert (max h (highestPrio value)) ?S)"
  proof (cases "?S = {}")
    case True
    then show ?thesis by (simp add: max.commute)
  next
    case False
    with fin show ?thesis by (simp add: max.assoc)
  qed
  show ?case
  proof (cases "highestPrio value > h")
    case True
    then have "h \<le> highestPrio value" by (rule order.strict_implies_order)
    then have "max h (highestPrio value) = highestPrio value" by (rule max.absorb2)
    with True Cons [of "highestPrio value"] e step show ?thesis by simp
  next
    case False
    then have "highestPrio value \<le> h" by (simp only: not_less)
    then have "max h (highestPrio value) = h" by (rule max.absorb1)
    with False Cons [of h] e step show ?thesis by simp
  qed
qed

lemma collectLoop_set:
  "collectLoop es h new = new \<union> {k. \<exists>v. (k, v) \<in> set es \<and> highestPrio v = h}"
  by (induction es h new rule: collectLoop.induct) auto

lemma Max_insert_zero:
  assumes "finite S" and "S \<noteq> {}"
  shows "Max (insert (0::byte) S) = Max S"
  using assms by (simp add: max_def)

lemma getAllowedSources_set:
  "m \<noteq> [] \<Longrightarrow>
   getAllowedSources m =
     {k. \<exists>v. (k, v) \<in> set m \<and> highestPrio v = Max (highestPrio ` snd ` set m)}"
proof -
  assume ne: "m \<noteq> []"
  then have "highestPrio ` snd ` set m \<noteq> {}" by simp
  then have "Max (insert 0 (highestPrio ` snd ` set m)) = Max (highestPrio ` snd ` set m)"
    by (simp add: Max_insert_zero)
  then show ?thesis
    by (simp add: getAllowedSources_def Let_def highestLoop_Max collectLoop_set)
qed

lemma getAllowedSources_empty: "getAllowedSources [] = {}"
  by (simp add: getAllowedSources_def)

lemma getAllowedSources_finite: "finite (getAllowedSources m)"
proof -
  have "getAllowedSources m \<subseteq> fst ` set m"
    by (auto simp add: getAllowedSources_def Let_def collectLoop_set intro: rev_image_eqI)
  then show ?thesis by (rule finite_subset) simp
qed

section \<open>The order of a visit does not matter\<close>

text \<open>
  Two lists of entries that are the same map give the same map after
  \<open>updateSourcesMap\<close> and the same winning set.
\<close>

lemma getAllowedSources_entries:
  "getAllowedSources m =
     {k. \<exists>v. (k, v) \<in> set m \<and> highestPrio v = Max (insert 0 (highestPrio ` snd ` set m))}"
  by (simp add: getAllowedSources_def Let_def highestLoop_Max collectLoop_set)

lemma getAllowedSources_order: "set m = set m' \<Longrightarrow> getAllowedSources m = getAllowedSources m'"
  by (simp add: getAllowedSources_entries)

lemma updateSourcesMap_order:
  assumes d: "distinct (map fst m)" and d': "distinct (map fst m')"
    and eq: "map_of m = map_of m'"
  shows "map_of (updateSourcesMap now p m) = map_of (updateSourcesMap now p m')"
proof
  fix k
  have entries: "((k, v) \<in> set m) = ((k, v) \<in> set m')" for v
    using map_of_eq_Some_iff [OF d, of k v] map_of_eq_Some_iff [OF d', of k v] eq by simp
  show "map_of (updateSourcesMap now p m) k = map_of (updateSourcesMap now p m') k"
  proof (cases "k = CID p")
    case True
    show ?thesis
    proof (cases "map_of m (CID p)")
      case None
      with eq have "map_of m' (CID p) = None" by simp
      with None True show ?thesis by (simp add: updateSourcesMap_own_new)
    next
      case (Some v)
      with eq have "map_of m' (CID p) = Some v" by simp
      with Some True show ?thesis by (simp add: updateSourcesMap_own_kept)
    qed
  next
    case False
    note a = updateSourcesMap_other [OF False, of now m]
    note b = updateSourcesMap_other [OF False, of now m']
    from a b show ?thesis by (simp only: entries eq)
  qed
qed

section \<open>Admitting and updating sources\<close>

text \<open>
  C1: for a packet whose CID already has an entry, the claim has the entry's
  \<open>lastTime\<close> set to now and its \<open>highestPrio\<close> and \<open>lastTimeHighPrio\<close> follow
  the packet's priority. The loop assigns to its copy of the entry only
  (\<open>updateSourcesMap_own_kept\<close>): here a source recorded at time 0 with priority 100
  sends a packet of priority 150 at time 1000, and its entry stays as it was.
\<close>

theorem updateSourcesMap_drops_update_of_existing_source:
  "updateSourcesMap 1000 \<lparr>Universe = 1, CID = 7, Priority = 150, Sequence = 3, Data = [1, 2, 3]\<rparr>
     [(7, \<lparr>lastTime = 0, lastTimeHighPrio = 0, highestPrio = 100\<rparr>)] =
   [(7, \<lparr>lastTime = 0, lastTimeHighPrio = 0, highestPrio = 100\<rparr>)]"
  by (simp add: updateSourcesMap_def)

text \<open>
  C7: in a map with pairwise different keys, after \<open>updateSourcesMap\<close> no entry of
  another CID than the packet's has a \<open>lastTime\<close> more than the timeout before now, and
  every entry of another CID whose \<open>lastTime\<close> is within the timeout is still there,
  unchanged.
\<close>

theorem updateSourcesMap_evicts_stale_keeps_fresh:
  assumes "distinct (map fst m)"
  shows "(\<forall>k v. map_of (updateSourcesMap now p m) k = Some v \<and> k \<noteq> CID p
            \<longrightarrow> \<not> (now - lastTime v > timeoutMs * Millisecond)) \<and>
         (\<forall>k v. map_of m k = Some v \<and> k \<noteq> CID p \<and>
                 \<not> (now - lastTime v > timeoutMs * Millisecond)
            \<longrightarrow> map_of (updateSourcesMap now p m) k = Some v)"
  using assms updateSourcesMap_other_not_stale updateSourcesMap_other_kept
  by blast

theorem updateSourcesMap_evicts_stale_keeps_fresh_witness:
  "distinct (map fst ex_sources_stale) \<and>
   map_of (updateSourcesMap 3000000000 (ex_pkt 7 100 3 []) ex_sources_stale) 2 =
     Some (ex_src 1000000000 100) \<and>
   map_of (updateSourcesMap 3000000000 (ex_pkt 7 100 3 []) ex_sources_stale) 1 = None"
proof -
  let ?p = "ex_pkt 7 100 3 []"
  have d: "distinct (map fst ex_sources_stale)" by (simp add: ex_sources_stale_def)
  have fresh: "map_of ex_sources_stale 2 = Some (ex_src 1000000000 100) \<and> 2 \<noteq> CID ?p \<and>
      \<not> (3000000000 - lastTime (ex_src 1000000000 100) > timeoutMs * Millisecond)"
    by (simp add: ex_sources_stale_def ex_src_def ex_pkt_def timeout_ns)
  have kept: "map_of (updateSourcesMap 3000000000 ?p ex_sources_stale) 2 =
      Some (ex_src 1000000000 100)"
    using updateSourcesMap_evicts_stale_keeps_fresh [OF d, of 3000000000 ?p] fresh by blast
  have gone: "map_of (updateSourcesMap 3000000000 ?p ex_sources_stale) 1 = None"
    by (simp add: updateSourcesMap_def delete_def ex_sources_stale_def ex_src_def ex_pkt_def
        since_def timeout_ns minDuration_def maxDuration_def)
  from d kept gone show ?thesis by simp
qed

section \<open>The winning set\<close>

text \<open>
  C8: \<open>getAllowedSources m\<close> is the set of the CIDs of \<open>m\<close> whose \<open>highestPrio\<close> is
  the greatest \<open>highestPrio\<close> of all entries of \<open>m\<close>, and the empty set when \<open>m\<close>
  is empty.
\<close>

theorem getAllowedSources_is_argmax:
  "getAllowedSources [] = {} \<and>
   (m \<noteq> [] \<longrightarrow>
      getAllowedSources m =
        {k. \<exists>v. (k, v) \<in> set m \<and> highestPrio v = Max (highestPrio ` snd ` set m)})"
  using getAllowedSources_empty getAllowedSources_set by blast

theorem getAllowedSources_is_argmax_witness:
  "ex_sources_tie \<noteq> [] \<and>
   getAllowedSources ex_sources_tie =
     {k. \<exists>v. (k, v) \<in> set ex_sources_tie \<and>
              highestPrio v = Max (highestPrio ` snd ` set ex_sources_tie)} \<and>
   getAllowedSources ex_sources_tie = {7, 8}"
proof -
  have ne: "ex_sources_tie \<noteq> []" by (simp add: ex_sources_tie_def)
  have arg: "getAllowedSources ex_sources_tie =
     {k. \<exists>v. (k, v) \<in> set ex_sources_tie \<and>
              highestPrio v = Max (highestPrio ` snd ` set ex_sources_tie)}"
    using getAllowedSources_is_argmax [of ex_sources_tie] ne by blast
  have ev: "getAllowedSources ex_sources_tie = {7, 8}"
    by (simp add: getAllowedSources_def ex_sources_tie_def ex_src_def insert_commute)
  from ne arg ev show ?thesis by (intro conjI)
qed

section \<open>The handling step\<close>

lemma handle_None: "handle now universe None r = handleElse now universe r"
  by (simp add: handle_def)

lemma handle_mismatch:
  "Universe pkt \<noteq> universe \<or> \<not> isActive r universe \<Longrightarrow>
   handle now universe (Some pkt) r = handleElse now universe r"
  by (auto simp add: handle_def)

lemma ex_single_winner:
  "getAllowedSources (updateSourcesMap 1000 (ex_pkt 7 100 3 d)
      (sources (ex_ld [(7, ex_src 0 100)]))) = {CID (ex_pkt 7 100 3 d)}"
  by (simp add: getAllowedSources_def updateSourcesMap_def ex_src_def ex_pkt_def ex_ld_def)

lemma ex_loser_set:
  "getAllowedSources (updateSourcesMap 1000 (ex_pkt 7 100 3 [4, 5, 6])
      (sources (ex_ld [(8, ex_src 0 200)]))) = {8}"
  by (simp add: getAllowedSources_def updateSourcesMap_def delete_def ex_src_def ex_pkt_def
      ex_ld_def since_def timeout_ns minDuration_def maxDuration_def)

text \<open>
  C3: when a packet for an active universe arrives and, after \<open>updateSourcesMap\<close>, the
  winning set holds more than one CID, \<open>handle\<close> emits exactly one ``sources exceeded''
  error for the universe, emits no data, and leaves the universe's \<open>lastSequ\<close>,
  \<open>lastDMXdata\<close> and \<open>lastTime\<close> as they were.
\<close>

theorem handle_sources_exceeded:
  assumes "universe = Universe pkt" and "isActive r universe"
    and "lastDatas r universe = Some ld"
    and "card (getAllowedSources (updateSourcesMap now pkt (sources ld))) > 1"
  shows "\<exists>r' ld'. handle now universe (Some pkt) r = Inr r' \<and>
           ErrChan r' = ErrChan r @ [(universe, ''sources exceeded'')] \<and>
           DataChan r' = DataChan r \<and>
           lastDatas r' universe = Some ld' \<and>
           lastSequ ld' = lastSequ ld \<and>
           lastDMXdata ld' = lastDMXdata ld \<and>
           lastTime_ld ld' = lastTime_ld ld"
  using assms by (simp add: handle_def Let_def errToCh_def)

theorem handle_sources_exceeded_witness:
  "\<exists>r' ld'. handle 1000 1 (Some (ex_pkt 7 100 3 [4, 5, 6])) (ex_socket ex_sources_tie) = Inr r' \<and>
     ErrChan r' = ErrChan (ex_socket ex_sources_tie) @ [(1, ''sources exceeded'')] \<and>
     DataChan r' = DataChan (ex_socket ex_sources_tie) \<and>
     lastDatas r' 1 = Some ld' \<and>
     lastSequ ld' = lastSequ (ex_ld ex_sources_tie) \<and>
     lastDMXdata ld' = lastDMXdata (ex_ld ex_sources_tie) \<and>
     lastTime_ld ld' = lastTime_ld (ex_ld ex_sources_tie)"
proof (rule handle_sources_exceeded)
  show "1 = Universe (ex_pkt 7 100 3 [4, 5, 6])" by (simp add: ex_pkt_def)
  show "isActive (ex_socket ex_sources_tie) 1" by (simp add: isActive_def ex_socket_def)
  show "lastDatas (ex_socket ex_sources_tie) 1 = Some (ex_ld ex_sources_tie)"
    by (simp add: ex_socket_def)
  have "getAllowedSources (updateSourcesMap 1000 (ex_pkt 7 100 3 [4, 5, 6])
           (sources (ex_ld ex_sources_tie))) = {7, 8}"
    by (simp add: getAllowedSources_def updateSourcesMap_def delete_def ex_sources_tie_def
        ex_src_def ex_pkt_def ex_ld_def since_def timeout_ns minDuration_def maxDuration_def
        insert_commute)
  then show "1 < card (getAllowedSources (updateSourcesMap 1000 (ex_pkt 7 100 3 [4, 5, 6])
           (sources (ex_ld ex_sources_tie))))"
    by simp
qed

text \<open>
  C4: when the winning set is exactly the packet's CID and the sequence check passes,
  \<open>handle\<close> sets \<open>lastSequ\<close> to the packet's sequence number and \<open>lastTime\<close> to now;
  the packet is sent on the data channel if and only if its payload differs from the
  stored \<open>lastDMXdata\<close>, which then becomes the payload; an identical payload is
  accepted without an emission. No error is emitted.
\<close>

theorem handle_accepts_winner:
  assumes "universe = Universe pkt" and "isActive r universe"
    and "lastDatas r universe = Some ld"
    and "getAllowedSources (updateSourcesMap now pkt (sources ld)) = {CID pkt}"
    and "checkSequ (lastSequ ld) (Sequence pkt)"
  shows "\<exists>r' ld'. handle now universe (Some pkt) r = Inr r' \<and>
           lastDatas r' universe = Some ld' \<and>
           lastSequ ld' = Sequence pkt \<and>
           lastTime_ld ld' = now \<and>
           lastDMXdata ld' = Data pkt \<and>
           DataChan r' =
             (if Data pkt \<noteq> lastDMXdata ld then DataChan r @ [pkt] else DataChan r) \<and>
           ErrChan r' = ErrChan r"
  using assms by (simp add: handle_def Let_def equalData_def)

theorem handle_accepts_winner_witness:
  "(\<exists>r' ld'. handle 1000 1 (Some (ex_pkt 7 100 3 [4, 5, 6])) (ex_socket [(7, ex_src 0 100)]) = Inr r' \<and>
      lastDatas r' 1 = Some ld' \<and>
      lastSequ ld' = Sequence (ex_pkt 7 100 3 [4, 5, 6]) \<and>
      lastTime_ld ld' = 1000 \<and>
      lastDMXdata ld' = Data (ex_pkt 7 100 3 [4, 5, 6]) \<and>
      DataChan r' =
        (if Data (ex_pkt 7 100 3 [4, 5, 6]) \<noteq> lastDMXdata (ex_ld [(7, ex_src 0 100)])
         then DataChan (ex_socket [(7, ex_src 0 100)]) @ [ex_pkt 7 100 3 [4, 5, 6]]
         else DataChan (ex_socket [(7, ex_src 0 100)])) \<and>
      ErrChan r' = ErrChan (ex_socket [(7, ex_src 0 100)])) \<and>
   (\<exists>r' ld'. handle 1000 1 (Some (ex_pkt 7 100 3 [1, 2, 3])) (ex_socket [(7, ex_src 0 100)]) = Inr r' \<and>
      lastDatas r' 1 = Some ld' \<and>
      lastSequ ld' = 3 \<and> lastTime_ld ld' = 1000 \<and> DataChan r' = [])"
proof -
  let ?r = "ex_socket [(7, ex_src 0 100)]"
  have u: "1 = Universe (ex_pkt 7 100 3 d)" for d by (simp add: ex_pkt_def)
  have a: "isActive ?r 1" by (simp add: isActive_def ex_socket_def)
  have l: "lastDatas ?r 1 = Some (ex_ld [(7, ex_src 0 100)])" by (simp add: ex_socket_def)
  have s: "checkSequ (lastSequ (ex_ld [(7, ex_src 0 100)])) (Sequence (ex_pkt 7 100 3 d))" for d
    by (simp add: checkSequ_def ex_ld_def ex_pkt_def)
  note first = handle_accepts_winner [OF u a l ex_single_winner s, of "[4, 5, 6]"]
  note second = handle_accepts_winner [OF u a l ex_single_winner s, of "[1, 2, 3]"]
  from second have second': "\<exists>r' ld'. handle 1000 1 (Some (ex_pkt 7 100 3 [1, 2, 3])) ?r = Inr r' \<and>
      lastDatas r' 1 = Some ld' \<and>
      lastSequ ld' = 3 \<and> lastTime_ld ld' = 1000 \<and> DataChan r' = []"
    by (auto simp add: ex_pkt_def ex_ld_def ex_socket_def)
  from first second' show ?thesis by (intro conjI)
qed

text \<open>
  C5: when the winning set has at most one element and does not hold the packet's CID,
  \<open>handle\<close> emits nothing on either channel, leaves \<open>lastSequ\<close>, \<open>lastDMXdata\<close> and
  \<open>lastTime\<close> as they were, and its result is the same whatever the packet's sequence
  number is: the sequence number is never checked.
\<close>

theorem handle_drops_loser:
  assumes "universe = Universe pkt" and "isActive r universe"
    and "lastDatas r universe = Some ld"
    and "card (getAllowedSources (updateSourcesMap now pkt (sources ld))) \<le> 1"
    and "CID pkt \<notin> getAllowedSources (updateSourcesMap now pkt (sources ld))"
  shows "\<exists>r' ld'. handle now universe (Some pkt) r = Inr r' \<and>
           DataChan r' = DataChan r \<and>
           ErrChan r' = ErrChan r \<and>
           lastDatas r' universe = Some ld' \<and>
           lastSequ ld' = lastSequ ld \<and>
           lastDMXdata ld' = lastDMXdata ld \<and>
           lastTime_ld ld' = lastTime_ld ld \<and>
           (\<forall>s. handle now universe (Some (pkt\<lparr>Sequence := s\<rparr>)) r = Inr r')"
proof -
  have same: "updateSourcesMap now (pkt\<lparr>Sequence := s\<rparr>) (sources ld) =
      updateSourcesMap now pkt (sources ld)" for s
    by (rule updateSourcesMap_cong) simp_all
  from assms show ?thesis
    by (simp add: handle_def Let_def same)
qed

theorem handle_drops_loser_witness:
  "\<exists>r' ld'. handle 1000 1 (Some (ex_pkt 7 100 3 [4, 5, 6])) (ex_socket [(8, ex_src 0 200)]) = Inr r' \<and>
     DataChan r' = DataChan (ex_socket [(8, ex_src 0 200)]) \<and>
     ErrChan r' = ErrChan (ex_socket [(8, ex_src 0 200)]) \<and>
     lastDatas r' 1 = Some ld' \<and>
     lastSequ ld' = lastSequ (ex_ld [(8, ex_src 0 200)]) \<and>
     lastDMXdata ld' = lastDMXdata (ex_ld [(8, ex_src 0 200)]) \<and>
     lastTime_ld ld' = lastTime_ld (ex_ld [(8, ex_src 0 200)]) \<and>
     (\<forall>s. handle 1000 1 (Some ((ex_pkt 7 100 3 [4, 5, 6])\<lparr>Sequence := s\<rparr>))
            (ex_socket [(8, ex_src 0 200)]) = Inr r')"
proof (rule handle_drops_loser)
  show "1 = Universe (ex_pkt 7 100 3 [4, 5, 6])" by (simp add: ex_pkt_def)
  show "isActive (ex_socket [(8, ex_src 0 200)]) 1" by (simp add: isActive_def ex_socket_def)
  show "lastDatas (ex_socket [(8, ex_src 0 200)]) 1 = Some (ex_ld [(8, ex_src 0 200)])"
    by (simp add: ex_socket_def)
  show "card (getAllowedSources (updateSourcesMap 1000 (ex_pkt 7 100 3 [4, 5, 6])
      (sources (ex_ld [(8, ex_src 0 200)])))) \<le> 1"
    by (simp add: ex_loser_set)
  show "CID (ex_pkt 7 100 3 [4, 5, 6]) \<notin> getAllowedSources
      (updateSourcesMap 1000 (ex_pkt 7 100 3 [4, 5, 6]) (sources (ex_ld [(8, ex_src 0 200)])))"
    by (simp add: ex_loser_set) (simp add: ex_pkt_def)
qed

text \<open>
  C6: when the packet is nil, or is for another universe, or the universe is not active,
  \<open>handle\<close> emits a ``timeout'' error exactly when now minus the universe's
  \<open>lastTime\<close> exceeds 2500 ms (in nanoseconds), and changes nothing else. The
  universe's state is assumed to exist, as its \<open>lastTime\<close> is read.
\<close>

theorem handle_timeout_level:
  assumes "lastDatas r universe = Some ld"
    and "p = None \<or> (\<exists>pkt. p = Some pkt \<and> (Universe pkt \<noteq> universe \<or> \<not> isActive r universe))"
  shows "handle now universe p r =
     Inr (if now - lastTime_ld ld > 2500 * 1000000
          then r\<lparr>ErrChan := ErrChan r @ [(universe, ''timeout'')]\<rparr> else r)"
proof -
  have t: "(since now (lastTime_ld ld) > timeoutMs * Millisecond) =
      (now - lastTime_ld ld > 2500 * 1000000)"
    unfolding since_gt_timeout by (simp add: timeout_ns)
  from assms(1) have else_branch: "handleElse now universe r =
     Inr (if now - lastTime_ld ld > 2500 * 1000000
          then r\<lparr>ErrChan := ErrChan r @ [(universe, ''timeout'')]\<rparr> else r)"
    by (simp add: handleElse_def errToCh_def t)
  from assms(2) show ?thesis
  proof
    assume "p = None"
    with else_branch show ?thesis by (simp add: handle_def)
  next
    assume "\<exists>pkt. p = Some pkt \<and> (Universe pkt \<noteq> universe \<or> \<not> isActive r universe)"
    then obtain pkt where "p = Some pkt" and "Universe pkt \<noteq> universe \<or> \<not> isActive r universe"
      by blast
    with else_branch show ?thesis by (auto simp add: handle_def)
  qed
qed

theorem handle_timeout_level_witness:
  "handle 2500000001 1 None (ex_socket []) =
     Inr ((ex_socket [])\<lparr>ErrChan := [(1, ''timeout'')]\<rparr>) \<and>
   handle 2500000000 1 None (ex_socket []) = Inr (ex_socket []) \<and>
   handle 2500000001 1 (Some ((ex_pkt 7 100 3 [])\<lparr>Universe := 2\<rparr>)) (ex_socket []) =
     Inr ((ex_socket [])\<lparr>ErrChan := [(1, ''timeout'')]\<rparr>)"
proof -
  have l: "lastDatas (ex_socket []) 1 = Some (ex_ld [])" by (simp add: ex_socket_def)
  have n: "(None :: DataPacket option) = None \<or>
      (\<exists>pkt. None = Some pkt \<and> (Universe pkt \<noteq> 1 \<or> \<not> isActive (ex_socket []) 1))"
    by simp
  have o: "Some ((ex_pkt 7 100 3 [])\<lparr>Universe := 2\<rparr>) = None \<or>
      (\<exists>pkt. Some ((ex_pkt 7 100 3 [])\<lparr>Universe := 2\<rparr>) = Some pkt \<and>
         (Universe pkt \<noteq> 1 \<or> \<not> isActive (ex_socket []) 1))"
    by (simp add: ex_pkt_def)
  from handle_timeout_level [OF l n, of 2500000001] handle_timeout_level [OF l n, of 2500000000]
    handle_timeout_level [OF l o, of 2500000001]
  show ?thesis by (simp add: ex_ld_def ex_socket_def)
qed

text \<open>
  C10: every call of \<open>handle\<close> reads through the \<open>lastDatas\<close> entry of its
  universe, on the packet path and on the other: the call panics with a nil dereference
  exactly when \<open>lastDatas\<close> has no entry for the universe, and returns exactly when it
  has one.
\<close>

theorem handle_panics_iff_no_entry:
  "(handle now universe p r = Inl NilDereference) = (lastDatas r universe = None) \<and>
   (\<exists>r'. handle now universe p r = Inr r') = (lastDatas r universe \<noteq> None)"
proof (cases "lastDatas r universe")
  case None
  then have "handleElse now universe r = Inl NilDereference"
    by (simp add: handleElse_def)
  with None have "handle now universe p r = Inl NilDereference"
    by (cases p) (auto simp add: handle_def)
  with None show ?thesis by simp
next
  case (Some ld)
  then have e: "\<exists>r'. handleElse now universe r = Inr r'"
    by (simp add: handleElse_def)
  have "\<exists>r'. handle now universe p r = Inr r'"
  proof (cases p)
    case None
    with e show ?thesis by (simp add: handle_def)
  next
    case (Some pkt)
    show ?thesis
    proof (cases "universe = Universe pkt \<and> isActive r universe")
      case True
      then have u: "universe = Universe pkt" and a: "isActive r (Universe pkt)" by auto
      from \<open>lastDatas r universe = Some ld\<close> u
      have l: "lastDatas r (Universe pkt) = Some ld" by simp
      from \<open>p = Some pkt\<close> u a l show ?thesis
        by (simp add: handle_def Let_def)
    next
      case False
      then have "Universe pkt \<noteq> universe \<or> \<not> isActive r universe" by auto
      then have "handle now universe (Some pkt) r = handleElse now universe r"
        by (rule handle_mismatch)
      with \<open>p = Some pkt\<close> e show ?thesis by simp
    qed
  qed
  with Some show ?thesis by auto
qed

theorem handle_panics_iff_no_entry_witness:
  "handle 1000 2 None (ex_socket []) = Inl NilDereference \<and>
   handle 1000 2 (Some ((ex_pkt 7 100 3 [])\<lparr>Universe := 2\<rparr>)) ((ex_socket [])\<lparr>activated := {1, 2}\<rparr>) =
     Inl NilDereference \<and>
   (\<exists>r'. handle 1000 1 (Some (ex_pkt 7 100 3 [])) (ex_socket []) = Inr r')"
proof -
  have a: "lastDatas (ex_socket []) 2 = None" by (simp add: ex_socket_def)
  have b: "lastDatas ((ex_socket [])\<lparr>activated := {1, 2}\<rparr>) 2 = None" by (simp add: ex_socket_def)
  have c: "lastDatas (ex_socket []) 1 \<noteq> None" by (simp add: ex_socket_def)
  from a b c
    handle_panics_iff_no_entry [of 1000 2 None "ex_socket []"]
    handle_panics_iff_no_entry [of 1000 2 "Some ((ex_pkt 7 100 3 [])\<lparr>Universe := 2\<rparr>)"
      "(ex_socket [])\<lparr>activated := {1, 2}\<rparr>"]
    handle_panics_iff_no_entry [of 1000 1 "Some (ex_pkt 7 100 3 [])" "ex_socket []"]
  show ?thesis by blast
qed

end
